theory Spec2Isabelle
  imports Main "HOL-Library.Sublist" "HOL-Library.Product_Lexorder"
begin

section \<open>The OpenAI engineering feed generator (feed\_generators/openai\_eng\_blog.py)\<close>

text \<open>
  The script fetches one page, walks its anchors, builds article records from the anchor
  texts and writes an RSS feed. The model follows the script function by function.
  Python strings are lists of code points; here a \<^typ>\<open>char\<close> stands for one code
  point below 256, so \<^const>\<open>length\<close> is Python's \<open>len\<close> on such strings.
  Calls into third-party libraries (the HTML parser, the hash of a string, the HTTP
  client, the feed library, the file system) are inputs of the model or small models of
  the documented library behaviour, named after the library function.
\<close>

subsection \<open>Exceptions and the log\<close>

text \<open>An exception object, with the message it carries. Only exceptions derived from
  Python's \<open>Exception\<close> are modelled, the ones an \<open>except Exception\<close> clause catches.\<close>

datatype exn = ValueError string | OverflowError string | TypeError string | Exception string

datatype level = INFO | WARNING | ERROR

subsection \<open>Characters and strings\<close>

text \<open>\<open>str.isspace\<close> on one code point below 256: tab, line feed, vertical tab, form
  feed, carriage return, the four separators 0x1C to 0x1F, space, next line (0x85) and
  no-break space (0xA0). The regular expression class \<open>\s\<close> and \<open>str.strip()\<close> use
  the same set.\<close>

definition whitespace :: "char list" where
  "whitespace = [CHR 0x09, CHR 0x0A, CHR 0x0B, CHR 0x0C, CHR 0x0D, CHR 0x1C, CHR 0x1D,
                 CHR 0x1E, CHR 0x1F, CHR 0x20, CHR 0x85, CHR 0xA0]"

definition isspace :: "char \<Rightarrow> bool" where
  "isspace c = (c \<in> set whitespace)"

text \<open>The class \<open>\d\<close> on code points below 256: the ten ASCII digits.\<close>

definition isdigit :: "char \<Rightarrow> bool" where
  "isdigit c = (c \<in> set ''0123456789'')"

definition digit_value :: "char \<Rightarrow> int" where
  "digit_value c = int (of_char c) - 48"

text \<open>\<open>int(s)\<close> on a string of decimal digits.\<close>

definition int_of_digits :: "string \<Rightarrow> int" where
  "int_of_digits ds = foldl (\<lambda>acc c. 10 * acc + digit_value c) 0 ds"

text \<open>\<open>s.strip()\<close>: leading and trailing whitespace removed.\<close>

definition strip :: "string \<Rightarrow> string" where
  "strip s = rev (dropWhile isspace (rev (dropWhile isspace s)))"

text \<open>\<open>sub in s\<close>: the substring test.\<close>

fun str_contains :: "string \<Rightarrow> string \<Rightarrow> bool" where
  "str_contains sub [] = (sub = [])"
| "str_contains sub (c # cs) = (prefix sub (c # cs) \<or> str_contains sub cs)"

text \<open>\<open>s.startswith(p)\<close>.\<close>

definition startswith :: "string \<Rightarrow> string \<Rightarrow> bool" where
  "startswith s p = prefix p s"

text \<open>\<open>s.replace(old, new)\<close> for a non-empty \<open>old\<close>: every occurrence, found left
  to right and not overlapping, is replaced.\<close>

function replace :: "string \<Rightarrow> string \<Rightarrow> string \<Rightarrow> string" where
  "replace old new s =
     (if s = [] \<or> old = [] then s
      else if prefix old s then new @ replace old new (drop (length old) s)
      else hd s # replace old new (tl s))"
  by pat_completeness auto
termination
  by (relation "measure (\<lambda>(old, new, s). length s)") auto

subsection \<open>Dates: the part of the datetime module the script uses\<close>

datatype tz = UTC

text \<open>A \<open>datetime\<close> object: the calendar fields and the time zone, \<open>None\<close> for a naive
  object. Microseconds are always zero in this script and are left out.\<close>

record datetime =
  year :: int
  month :: int
  day :: int
  hour :: int
  minute :: int
  second :: int
  tzinfo :: "tz option"

text \<open>The calendar arithmetic of the datetime module (proleptic Gregorian ordinals,
  day 1 is 0001-01-01), as in its Python implementation.\<close>

definition is_leap :: "int \<Rightarrow> bool" where
  "is_leap y = (y mod 4 = 0 \<and> (y mod 100 \<noteq> 0 \<or> y mod 400 = 0))"

definition DAYS_IN_MONTH :: "int \<Rightarrow> int" where
  "DAYS_IN_MONTH m =
     (if m = 1 then 31 else if m = 2 then 28 else if m = 3 then 31 else if m = 4 then 30
      else if m = 5 then 31 else if m = 6 then 30 else if m = 7 then 31 else if m = 8 then 31
      else if m = 9 then 30 else if m = 10 then 31 else if m = 11 then 30 else if m = 12 then 31
      else -1)"

definition DAYS_BEFORE_MONTH :: "int \<Rightarrow> int" where
  "DAYS_BEFORE_MONTH m =
     (if m = 1 then 0 else if m = 2 then 31 else if m = 3 then 59 else if m = 4 then 90
      else if m = 5 then 120 else if m = 6 then 151 else if m = 7 then 181 else if m = 8 then 212
      else if m = 9 then 243 else if m = 10 then 273 else if m = 11 then 304 else if m = 12 then 334
      else -1)"

definition days_before_year :: "int \<Rightarrow> int" where
  "days_before_year y = (y - 1) * 365 + (y - 1) div 4 - (y - 1) div 100 + (y - 1) div 400"

definition days_in_month :: "int \<Rightarrow> int \<Rightarrow> int" where
  "days_in_month y m = (if m = 2 \<and> is_leap y then 29 else DAYS_IN_MONTH m)"

definition days_before_month :: "int \<Rightarrow> int \<Rightarrow> int" where
  "days_before_month y m = DAYS_BEFORE_MONTH m + (if m > 2 \<and> is_leap y then 1 else 0)"

definition ymd2ord :: "int \<Rightarrow> int \<Rightarrow> int \<Rightarrow> int" where
  "ymd2ord y m d = days_before_year y + days_before_month y m + d"

definition ord2ymd :: "int \<Rightarrow> int \<times> int \<times> int" where
  "ord2ymd n0 =
     (let n = n0 - 1;
          n400 = n div 146097; n = n mod 146097;
          n100 = n div 36524; n = n mod 36524;
          n4 = n div 1461; n = n mod 1461;
          n1 = n div 365; n = n mod 365;
          y = n400 * 400 + 1 + n100 * 100 + n4 * 4 + n1
      in if n1 = 4 \<or> n100 = 4 then (y - 1, 12, 31)
         else
           let leapyear = (n1 = 3 \<and> (n4 \<noteq> 24 \<or> n100 = 3));
               m = (n + 50) div 32;
               preceding = DAYS_BEFORE_MONTH m + (if m > 2 \<and> leapyear then 1 else 0)
           in if preceding > n
              then (y, m - 1,
                    n - (preceding - (DAYS_IN_MONTH (m - 1)
                                      + (if m - 1 = 2 \<and> leapyear then 1 else 0))) + 1)
              else (y, m, n - preceding + 1))"

definition MAXORDINAL :: int where
  "MAXORDINAL = 3652059"

text \<open>\<open>datetime(y, m, d, hh, mm, ss, tzinfo=tz)\<close>: the constructor refuses fields out
  of range with a ValueError.\<close>

definition datetime_new :: "int \<Rightarrow> int \<Rightarrow> int \<Rightarrow> int \<Rightarrow> int \<Rightarrow> int \<Rightarrow> tz option \<Rightarrow> exn + datetime" where
  "datetime_new y m d hh mm ss z =
     (if \<not> (1 \<le> y \<and> y \<le> 9999) then Inl (ValueError ''year is out of range'')
      else if \<not> (1 \<le> m \<and> m \<le> 12) then Inl (ValueError ''month must be in 1..12'')
      else if \<not> (1 \<le> d \<and> d \<le> days_in_month y m) then Inl (ValueError ''day is out of range for month'')
      else if \<not> (0 \<le> hh \<and> hh \<le> 23) then Inl (ValueError ''hour must be in 0..23'')
      else if \<not> (0 \<le> mm \<and> mm \<le> 59) then Inl (ValueError ''minute must be in 0..59'')
      else if \<not> (0 \<le> ss \<and> ss \<le> 59) then Inl (ValueError ''second must be in 0..59'')
      else Inr \<lparr>year = y, month = m, day = d, hour = hh, minute = mm, second = ss, tzinfo = z\<rparr>)"

definition toordinal :: "datetime \<Rightarrow> int" where
  "toordinal dt = ymd2ord (year dt) (month dt) (day dt)"

text \<open>\<open>dt + timedelta(days=n)\<close>: the date moves by \<open>n\<close> days through its ordinal, the
  time of day and the time zone stay; a result outside the years 1 to 9999 is an
  OverflowError.\<close>

definition add_days :: "datetime \<Rightarrow> int \<Rightarrow> exn + datetime" where
  "add_days dt n =
     (let ord = toordinal dt + n
      in if 0 < ord \<and> ord \<le> MAXORDINAL
         then (case ord2ymd ord of (y, m, d) \<Rightarrow> Inr (dt\<lparr>year := y, month := m, day := d\<rparr>))
         else Inl (OverflowError ''date value out of range''))"

text \<open>The order of two datetime objects of the same time zone: the fields compared
  lexicographically.\<close>

definition dt_key :: "datetime \<Rightarrow> int \<times> int \<times> int \<times> int \<times> int \<times> int" where
  "dt_key dt = (year dt, month dt, day dt, hour dt, minute dt, second dt)"

definition dt_le :: "datetime \<Rightarrow> datetime \<Rightarrow> bool" where
  "dt_le a b = (dt_key a \<le> dt_key b)"

subsection \<open>stable\_fallback\_date\<close>

text \<open>
  \<^verbatim>\<open>
  def stable_fallback_date(identifier):
      hash_val = abs(hash(identifier)) % 730
      epoch = datetime(2023, 1, 1, 0, 0, 0, tzinfo=pytz.UTC)
      return epoch + timedelta(days=hash_val)
  \<close>
  Python's \<open>hash\<close> of a string is seeded per process; the model takes the hash function
  of the running process as the parameter \<open>py_hash\<close>.
\<close>

definition epoch :: datetime where
  "epoch = \<lparr>year = 2023, month = 1, day = 1, hour = 0, minute = 0, second = 0, tzinfo = Some UTC\<rparr>"

definition stable_fallback_date :: "(string \<Rightarrow> int) \<Rightarrow> string \<Rightarrow> exn + datetime" where
  "stable_fallback_date py_hash identifier =
     (let hash_val = \<bar>py_hash identifier\<bar> mod 730
      in case datetime_new 2023 1 1 0 0 0 (Some UTC) of
           Inl e \<Rightarrow> Inl e
         | Inr ep \<Rightarrow> add_days ep hash_val)"

subsection \<open>The two regular expressions of the parser\<close>

definition months :: "string list" where
  "months = [''Jan'', ''Feb'', ''Mar'', ''Apr'', ''May'', ''Jun'',
             ''Jul'', ''Aug'', ''Sep'', ''Oct'', ''Nov'', ''Dec'']"

text \<open>
  The date pattern
  \<^verbatim>\<open>(Jan|Feb|Mar|Apr|May|Jun|Jul|Aug|Sep|Oct|Nov|Dec)\s+(\d{1,2}),\s+(\d{4})\<close>
  matched at the start of \<open>s\<close>; the result is \<open>group(0)\<close>. Whitespace, digits and the
  comma are disjoint classes, so the greedy repetitions have one way to match: a month
  name, all the whitespace that follows (at least one), a run of one or two digits ended
  by a comma, whitespace again, and four digits.
\<close>

definition date_match_at :: "string \<Rightarrow> string option" where
  "date_match_at s =
     (let mon = take 3 s; r1 = drop 3 s;
          w1 = takeWhile isspace r1; r2 = dropWhile isspace r1;
          dd = takeWhile isdigit r2; r3 = dropWhile isdigit r2;
          w2 = takeWhile isspace (drop 1 r3); r4 = dropWhile isspace (drop 1 r3);
          yyyy = take 4 r4
      in if mon \<in> set months \<and> w1 \<noteq> [] \<and> (length dd = 1 \<or> length dd = 2)
            \<and> take 1 r3 = '','' \<and> w2 \<noteq> [] \<and> length yyyy = 4 \<and> list_all isdigit yyyy
         then Some (mon @ w1 @ dd @ '','' @ w2 @ yyyy)
         else None)"

text \<open>\<open>re.search\<close> with the date pattern: the leftmost position where it matches. The
  match object is its start index and \<open>group(0)\<close>.\<close>

fun re_search_date :: "string \<Rightarrow> (nat \<times> string) option" where
  "re_search_date [] = None"
| "re_search_date (c # cs) =
     (case date_match_at (c # cs) of
        Some d \<Rightarrow> Some (0, d)
      | None \<Rightarrow> (case re_search_date cs of None \<Rightarrow> None | Some (i, d) \<Rightarrow> Some (Suc i, d)))"

text \<open>
  The title pattern
  \<^verbatim>\<open>Engineering(Jan|Feb|Mar|Apr|May|Jun|Jul|Aug|Sep|Oct|Nov|Dec).*$\<close>
  matched at the start of \<open>s\<close>; the result is what is left of \<open>s\<close> after the match.
  The dot matches every character but the line feed, and \<open>$\<close> matches at the end of
  the string or before a line feed that ends the string. So the match succeeds when
  the rest of the string has no line feed (and takes all of it) or when its only line feed
  is the last character (and stops before it).
\<close>

definition eng_match_at :: "string \<Rightarrow> string option" where
  "eng_match_at s =
     (let r = drop 14 s;
          rest = dropWhile (\<lambda>c. c \<noteq> CHR 0x0A) r
      in if take 11 s = ''Engineering'' \<and> take 3 (drop 11 s) \<in> set months
            \<and> (rest = [] \<or> rest = [CHR 0x0A])
         then Some rest
         else None)"

text \<open>\<open>re.sub\<close> with the title pattern and the empty replacement: the text is copied
  up to the leftmost match, the match is dropped, and what is left after it (nothing,
  or the final line feed) cannot match again.\<close>

fun re_sub_engineering :: "string \<Rightarrow> string" where
  "re_sub_engineering [] = []"
| "re_sub_engineering (c # cs) =
     (case eng_match_at (c # cs) of
        Some rest \<Rightarrow> rest
      | None \<Rightarrow> c # re_sub_engineering cs)"

subsection \<open>strptime with the format "%b %d, %Y"\<close>

text \<open>ASCII lower case, for the case-insensitive month name of \<open>%b\<close>.\<close>

definition lower :: "char \<Rightarrow> char" where
  "lower c =
     (case map_of (zip ''ABCDEFGHIJKLMNOPQRSTUVWXYZ'' ''abcdefghijklmnopqrstuvwxyz'') c of
        Some l \<Rightarrow> l
      | None \<Rightarrow> c)"

definition month_number :: "string \<Rightarrow> int option" where
  "month_number mon =
     map_of (zip (map (map lower) months) [1, 2, 3, 4, 5, 6, 7, 8, 9, 10, 11, 12]) (map lower mon)"

text \<open>
  \<open>datetime.strptime(s, "%b %d, %Y")\<close> in the C locale, which the script never
  changes. The whole string must be a month abbreviation, whitespace, a day written as
  1 to 31 with one or two digits, a comma, whitespace and four digits of year; the date
  must exist (year at least 1, day within the month). Everything else is a ValueError.
  The result is a naive datetime at midnight.
\<close>

definition strptime :: "string \<Rightarrow> exn + datetime" where
  "strptime s =
     (let mon = take 3 s; r1 = drop 3 s;
          w1 = takeWhile isspace r1; r2 = dropWhile isspace r1;
          dd = takeWhile isdigit r2; r3 = dropWhile isdigit r2;
          w2 = takeWhile isspace (drop 1 r3); r4 = dropWhile isspace (drop 1 r3)
      in case month_number mon of
           None \<Rightarrow> Inl (ValueError ''time data does not match format'')
         | Some m \<Rightarrow>
             if w1 \<noteq> [] \<and> (length dd = 1 \<or> length dd = 2)
                \<and> 1 \<le> int_of_digits dd \<and> int_of_digits dd \<le> 31
                \<and> take 1 r3 = '','' \<and> w2 \<noteq> [] \<and> length r4 = 4 \<and> list_all isdigit r4
             then datetime_new (int_of_digits r4) m (int_of_digits dd) 0 0 0 None
             else Inl (ValueError ''time data does not match format''))"

subsection \<open>Anchors, articles and the parser\<close>

text \<open>
  One element of \<open>soup.find_all("a", href=True)\<close>: the value of its \<open>href\<close> attribute
  and the outcome of \<open>a.get_text(strip=True)\<close>, which is the visible text or an
  exception of the HTML library.
\<close>

record anchor =
  href :: string
  get_text :: "exn + string"

record article =
  title :: string
  link :: string
  date :: datetime
  category :: string
  description :: string

datatype message =
    Fetching
  | Fetched
  | Fetch_error exn
  | Found_article string datetime
  | Skipping exn
  | Parsed nat
  | No_articles
  | Feed_generated
  | Feed_saved string
  | Failed exn

type_synonym log = "(level \<times> message) list"

text \<open>
  Lines 56 to 71 of the script: the title and the date of an anchor text.
  \<^verbatim>\<open>
  date_match = re.search(r'(Jan|...|Dec)\s+(\d{1,2}),\s+(\d{4})', text)
  if date_match:
      date_str = date_match.group(0)
      title = re.sub(r'Engineering(Jan|...|Dec).*$', '', text).strip()
      try:
          date = datetime.strptime(date_str, "%b %d, %Y")
          date = date.replace(tzinfo=pytz.UTC)
      except Exception:
          date = stable_fallback_date(href)
  else:
      title = text.replace("Engineering", "").strip()
      date = stable_fallback_date(href)
  \<close>
\<close>

definition title_and_date :: "(string \<Rightarrow> int) \<Rightarrow> string \<Rightarrow> string \<Rightarrow> exn + (string \<times> datetime)" where
  "title_and_date py_hash hrf txt =
     (case re_search_date txt of
        Some (i, date_str) \<Rightarrow>
          (let ttl = strip (re_sub_engineering txt)
           in case strptime date_str of
                Inr d \<Rightarrow> Inr (ttl, d\<lparr>tzinfo := Some UTC\<rparr>)
              | Inl e \<Rightarrow>
                  (case stable_fallback_date py_hash hrf of
                     Inl e' \<Rightarrow> Inl e'
                   | Inr d \<Rightarrow> Inr (ttl, d)))
      | None \<Rightarrow>
          (let ttl = strip (replace ''Engineering'' [] txt)
           in case stable_fallback_date py_hash hrf of
                Inl e' \<Rightarrow> Inl e'
              | Inr d \<Rightarrow> Inr (ttl, d)))"

text \<open>What one pass through the loop body does with an anchor, before the duplicate
  test: it leaves by \<open>continue\<close>, it raises, or it has an article to add.\<close>

datatype outcome = Continue | Raised exn | Candidate article

definition process_anchor :: "(string \<Rightarrow> int) \<Rightarrow> anchor \<Rightarrow> outcome" where
  "process_anchor py_hash a =
     (case get_text a of
        Inl e \<Rightarrow> Raised e
      | Inr txt \<Rightarrow>
          if \<not> str_contains ''/index/'' (href a) then Continue
          else if length txt < 20 then Continue
          else
            (case title_and_date py_hash (href a) txt of
               Inl e \<Rightarrow> Raised e
             | Inr (ttl, d) \<Rightarrow>
                 Candidate \<lparr>title = ttl,
                            link = (if startswith (href a) ''/''
                                    then ''https://openai.com'' @ href a else href a),
                            date = d,
                            category = ''Engineering'',
                            description = ttl\<rparr>))"

text \<open>One iteration of the loop on the accumulated articles and the log: the
  duplicate test, the append and the log line, or the \<open>except\<close> clause with its warning.\<close>

definition loop_step :: "(string \<Rightarrow> int) \<Rightarrow> article list \<times> log \<Rightarrow> anchor \<Rightarrow> article list \<times> log" where
  "loop_step py_hash st a =
     (case process_anchor py_hash a of
        Continue \<Rightarrow> st
      | Raised e \<Rightarrow> (fst st, snd st @ [(WARNING, Skipping e)])
      | Candidate art \<Rightarrow>
          if list_ex (\<lambda>x. link x = link art) (fst st) then st
          else (fst st @ [art], snd st @ [(INFO, Found_article (title art) (date art))]))"

fun parse_loop :: "(string \<Rightarrow> int) \<Rightarrow> anchor list \<Rightarrow> article list \<times> log \<Rightarrow> article list \<times> log" where
  "parse_loop py_hash [] st = st"
| "parse_loop py_hash (a # as) st = parse_loop py_hash as (loop_step py_hash st a)"

text \<open>\<open>parse_engineering_html\<close>, on the anchors of the parsed page: the articles it
  returns and the lines it logs.\<close>

definition parse_engineering_html :: "(string \<Rightarrow> int) \<Rightarrow> anchor list \<Rightarrow> article list \<times> log" where
  "parse_engineering_html py_hash anchors =
     (case parse_loop py_hash anchors ([], []) of
        (articles, lg) \<Rightarrow> (articles, lg @ [(INFO, Parsed (length articles))]))"

subsection \<open>The feed writer\<close>

text \<open>The part of a feedgen \<open>FeedGenerator\<close> and of its entries that the script sets.\<close>

record feed_entry =
  entry_title :: string
  entry_link :: string
  entry_description :: string
  entry_published :: datetime
  entry_category :: string
  entry_id :: string

record feed_generator =
  fg_title :: string
  fg_description :: string
  fg_link :: string
  fg_language :: string
  fg_entries :: "feed_entry list"

text \<open>
  \<open>sorted(articles, key=lambda x: x["date"], reverse=True)\<close>. The sort is stable, and
  with \<open>reverse=True\<close> articles of equal date keep their order too: the list is reversed,
  sorted upwards and reversed again. Comparing a naive datetime with an aware one is a
  TypeError, and a sort of a list that holds both has to compare two such objects.
\<close>

definition aware :: "article \<Rightarrow> bool" where
  "aware x = (tzinfo (date x) \<noteq> None)"

definition sorted_reverse :: "article list \<Rightarrow> exn + article list" where
  "sorted_reverse articles =
     (if list_ex aware articles \<and> list_ex (\<lambda>x. \<not> aware x) articles
      then Inl (TypeError ''can't compare offset-naive and offset-aware datetimes'')
      else Inr (rev (sort_key (\<lambda>x. dt_key (date x)) (rev articles))))"

text \<open>
  \<open>fg.add_entry()\<close>, called as the script calls it, without arguments: feedgen's
  signature is \<open>add_entry(self, feedEntry=None, order='prepend')\<close>, and with
  \<open>order='prepend'\<close> the new entry is inserted at the front of the feed's entry list
  (\<open>self.__feed_entries.insert(0, feedEntry)\<close>). The RSS document lists the entries in
  the order of that list. The script fills the entry in after the call; the model
  inserts the filled entry.
\<close>

definition add_entry :: "feed_generator \<Rightarrow> feed_entry \<Rightarrow> feed_generator" where
  "add_entry fg fe = fg\<lparr>fg_entries := fe # fg_entries fg\<rparr>"

text \<open>The body of the loop over the sorted articles. \<open>fe.published\<close> refuses a
  datetime without a time zone with a ValueError.\<close>

fun add_entries :: "feed_generator \<Rightarrow> article list \<Rightarrow> exn + feed_generator" where
  "add_entries fg [] = Inr fg"
| "add_entries fg (x # xs) =
     (if tzinfo (date x) = None
      then Inl (ValueError ''Datetime object has no timezone info'')
      else add_entries
             (add_entry fg
                \<lparr>entry_title = title x, entry_link = link x,
                 entry_description = description x, entry_published = date x,
                 entry_category = category x, entry_id = link x\<rparr>)
             xs)"

definition new_feed :: feed_generator where
  "new_feed = \<lparr>fg_title = ''OpenAI Engineering News'',
               fg_description = ''Latest engineering news and updates from OpenAI'',
               fg_link = ''https://openai.com/news/engineering'',
               fg_language = ''en'',
               fg_entries = []\<rparr>"

text \<open>\<open>generate_rss_feed\<close>: the feed object or the exception raised, and the lines
  logged.\<close>

definition generate_rss_feed :: "article list \<Rightarrow> (exn + feed_generator) \<times> log" where
  "generate_rss_feed articles =
     (case sorted_reverse articles of
        Inl e \<Rightarrow> (Inl e, [])
      | Inr articles_sorted \<Rightarrow>
          (case add_entries new_feed articles_sorted of
             Inl e \<Rightarrow> (Inl e, [])
           | Inr fg \<Rightarrow> (Inr fg, [(INFO, Feed_generated)])))"

subsection \<open>The world outside, and main\<close>

text \<open>
  What one run meets outside the script: the outcome of the HTTP request (the page text,
  or the exception of the client or of \<open>raise_for_status\<close>), the anchors the HTML parser
  finds in a page, the string hash of the process, and the outcomes of creating the
  feeds directory and of writing the feed file.
\<close>

record world =
  http_get :: "exn + string"
  find_all_a :: "string \<Rightarrow> anchor list"
  py_hash :: "string \<Rightarrow> int"
  mkdir :: "exn option"
  rss_file :: "string \<Rightarrow> feed_generator \<Rightarrow> exn option"

text \<open>\<open>fetch_engineering_page\<close>: the exception is logged and raised again.\<close>

definition fetch_engineering_page :: "world \<Rightarrow> (exn + string) \<times> log" where
  "fetch_engineering_page w =
     (case http_get w of
        Inr page \<Rightarrow> (Inr page, [(INFO, Fetching), (INFO, Fetched)])
      | Inl e \<Rightarrow> (Inl e, [(INFO, Fetching), (ERROR, Fetch_error e)]))"

text \<open>\<open>save_rss_feed\<close>: the path written, or the exception; the files written; the
  lines logged.\<close>

definition output_file :: "string \<Rightarrow> string" where
  "output_file feed_name = ''feeds/feed_'' @ feed_name @ ''.xml''"

definition save_rss_feed ::
  "world \<Rightarrow> feed_generator \<Rightarrow> (exn + string) \<times> (string \<times> feed_generator) list \<times> log" where
  "save_rss_feed w fg =
     (case mkdir w of
        Some e \<Rightarrow> (Inl e, [], [])
      | None \<Rightarrow>
          (case rss_file w (output_file ''openai_engineering'') fg of
             Some e \<Rightarrow> (Inl e, [], [])
           | None \<Rightarrow>
               (Inr (output_file ''openai_engineering''),
                [(output_file ''openai_engineering'', fg)],
                [(INFO, Feed_saved (output_file ''openai_engineering''))])))"

text \<open>What a run of \<open>main\<close> leaves: the value returned, the log, the feed object
  generated (if the run got that far) and the files written.\<close>

record run =
  returned :: bool
  logged :: log
  generated :: "feed_generator option"
  written :: "(string \<times> feed_generator) list"

definition main :: "world \<Rightarrow> run" where
  "main w =
     (case fetch_engineering_page w of
        (Inl e, l1) \<Rightarrow>
          \<lparr>returned = False, logged = l1 @ [(ERROR, Failed e)], generated = None, written = []\<rparr>
      | (Inr html_content, l1) \<Rightarrow>
          (case parse_engineering_html (py_hash w) (find_all_a w html_content) of
             (articles, l2) \<Rightarrow>
               if articles = []
               then \<lparr>returned = False, logged = l1 @ l2 @ [(WARNING, No_articles)],
                     generated = None, written = []\<rparr>
               else
                 (case generate_rss_feed articles of
                    (Inl e, l3) \<Rightarrow>
                      \<lparr>returned = False, logged = l1 @ l2 @ l3 @ [(ERROR, Failed e)],
                       generated = None, written = []\<rparr>
                  | (Inr feed, l3) \<Rightarrow>
                      (case save_rss_feed w feed of
                         (Inl e, files, l4) \<Rightarrow>
                           \<lparr>returned = False, logged = l1 @ l2 @ l3 @ l4 @ [(ERROR, Failed e)],
                            generated = Some feed, written = files\<rparr>
                       | (Inr path, files, l4) \<Rightarrow>
                           \<lparr>returned = True, logged = l1 @ l2 @ l3 @ l4,
                            generated = Some feed, written = files\<rparr>))))"

subsection \<open>Notions used to state the properties\<close>

text \<open>A day offset from the epoch of the fallback date lands in the two years after
  it: the date exists, lies \<open>n\<close> days after the epoch and within 2023-01-01 and
  2024-12-31, at midnight UTC.\<close>

definition in_window :: "int \<Rightarrow> bool" where
  "in_window n =
     (case add_days epoch n of
        Inl e \<Rightarrow> False
      | Inr d \<Rightarrow> toordinal d = toordinal epoch + n
                \<and> dt_le epoch d
                \<and> dt_le d \<lparr>year = 2024, month = 12, day = 31, hour = 0, minute = 0,
                           second = 0, tzinfo = Some UTC\<rparr>
                \<and> hour d = 0 \<and> minute d = 0 \<and> second d = 0 \<and> tzinfo d = Some UTC)"

text \<open>The article an anchor yields before the duplicate test, if it yields one, and
  the articles a list of anchors yields, in document order.\<close>

definition candidate :: "(string \<Rightarrow> int) \<Rightarrow> anchor \<Rightarrow> article option" where
  "candidate h a =
     (case process_anchor h a of
        Candidate art \<Rightarrow> Some art
      | Continue \<Rightarrow> None
      | Raised e \<Rightarrow> None)"

definition candidates :: "(string \<Rightarrow> int) \<Rightarrow> anchor list \<Rightarrow> article list" where
  "candidates h anchors = List.map_filter (candidate h) anchors"

text \<open>The anchor filter of lines 48 to 54: the text was read, the href contains the
  path marker and the text has at least 20 characters.\<close>

definition qualifies :: "anchor \<Rightarrow> bool" where
  "qualifies a =
     (case get_text a of
        Inl e \<Rightarrow> False
      | Inr txt \<Rightarrow> str_contains ''/index/'' (href a) \<and> 20 \<le> length txt)"

subsection \<open>An example page\<close>

text \<open>Five anchors: an article in the usual format with a relative href, a second
  anchor that resolves to the same link through an absolute href and has no date, a
  navigation link, an article link with a short text, and an anchor whose text cannot
  be read.\<close>

definition anchor_article :: anchor where
  "anchor_article =
     \<lparr>href = ''/index/gpt-x'', get_text = Inr ''Introducing GPT-XEngineeringMar 3, 2024''\<rparr>"

definition anchor_again :: anchor where
  "anchor_again =
     \<lparr>href = ''https://openai.com/index/gpt-x'', get_text = Inr ''Read more about GPT-X today''\<rparr>"

definition anchor_about :: anchor where
  "anchor_about = \<lparr>href = ''/about'', get_text = Inr ''About the company and its mission''\<rparr>"

definition anchor_short :: anchor where
  "anchor_short = \<lparr>href = ''/index/short'', get_text = Inr ''Short''\<rparr>"

definition anchor_broken :: anchor where
  "anchor_broken = \<lparr>href = ''/index/broken'', get_text = Inl (Exception ''boom'')\<rparr>"

definition example_page :: "anchor list" where
  "example_page = [anchor_article, anchor_again, anchor_about, anchor_short, anchor_broken]"

definition article_gpt_x :: article where
  "article_gpt_x =
     \<lparr>title = ''Introducing GPT-X'',
      link = ''https://openai.com/index/gpt-x'',
      date = \<lparr>year = 2024, month = 3, day = 3, hour = 0, minute = 0, second = 0,
              tzinfo = Some UTC\<rparr>,
      category = ''Engineering'',
      description = ''Introducing GPT-X''\<rparr>"

text \<open>A hash function for the examples: the length of the string.\<close>

definition length_hash :: "string \<Rightarrow> int" where
  "length_hash s = int (length s)"

text \<open>A run that fetches a page with a navigation link and a short article link
  only, on a file system that accepts every write.\<close>

definition world_no_articles :: world where
  "world_no_articles =
     \<lparr>http_get = Inr ''<html>'',
      find_all_a = (\<lambda>page. [anchor_about, anchor_short]),
      py_hash = length_hash,
      mkdir = None,
      rss_file = (\<lambda>path fg. None)\<rparr>"

text \<open>Two anchors without a date in their text whose hrefs spell the same page: a
  relative href and the absolute one, and the articles they yield under
  \<^const>\<open>length_hash\<close>.\<close>

definition anchor_relative :: anchor where
  "anchor_relative = \<lparr>href = ''/index/x'', get_text = Inr ''A look inside our training stack''\<rparr>"

definition anchor_absolute :: anchor where
  "anchor_absolute =
     \<lparr>href = ''https://openai.com/index/x'', get_text = Inr ''A look inside our training stack''\<rparr>"

definition article_relative :: article where
  "article_relative =
     \<lparr>title = ''A look inside our training stack'',
      link = ''https://openai.com/index/x'',
      date = \<lparr>year = 2023, month = 1, day = 9, hour = 0, minute = 0, second = 0,
              tzinfo = Some UTC\<rparr>,
      category = ''Engineering'',
      description = ''A look inside our training stack''\<rparr>"

definition article_absolute :: article where
  "article_absolute =
     \<lparr>title = ''A look inside our training stack'',
      link = ''https://openai.com/index/x'',
      date = \<lparr>year = 2023, month = 1, day = 27, hour = 0, minute = 0, second = 0,
              tzinfo = Some UTC\<rparr>,
      category = ''Engineering'',
      description = ''A look inside our training stack''\<rparr>"

text \<open>Three articles dated 2024-01-01, 2024-03-01 and 2024-02-01, in that order.\<close>

definition article_dated :: "string \<Rightarrow> int \<Rightarrow> int \<Rightarrow> int \<Rightarrow> article" where
  "article_dated name y m d =
     \<lparr>title = name,
      link = ''https://openai.com/index/'' @ name,
      date = \<lparr>year = y, month = m, day = d, hour = 0, minute = 0, second = 0,
              tzinfo = Some UTC\<rparr>,
      category = ''Engineering'',
      description = name\<rparr>"

definition three_articles :: "article list" where
  "three_articles =
     [article_dated ''january'' 2024 1 1,
      article_dated ''march'' 2024 3 1,
      article_dated ''february'' 2024 2 1]"

text \<open>The entries of the feed that \<open>generate_rss_feed\<close> returns, in the order of
  the feed (empty when it raises).\<close>

definition feed_entries :: "article list \<Rightarrow> feed_entry list" where
  "feed_entries articles =
     (case fst (generate_rss_feed articles) of
        Inl e \<Rightarrow> []
      | Inr fg \<Rightarrow> fg_entries fg)"





section \<open>Properties\<close>

subsection \<open>The fallback date\<close>

lemma in_window_all: "list_all in_window [0..729]"
  by code_simp

lemma in_window: "0 \<le> n \<Longrightarrow> n < 730 \<Longrightarrow> in_window n"
  using in_window_all by (simp add: list_all_iff)

lemma datetime_new_epoch: "datetime_new 2023 1 1 0 0 0 (Some UTC) = Inr epoch"
  by (simp add: datetime_new_def epoch_def days_in_month_def DAYS_IN_MONTH_def)

lemma fallback_window:
  "\<exists>d. stable_fallback_date h ident = Inr d
       \<and> toordinal d = toordinal epoch + \<bar>h ident\<bar> mod 730
       \<and> dt_le epoch d
       \<and> dt_le d \<lparr>year = 2024, month = 12, day = 31, hour = 0, minute = 0,
                  second = 0, tzinfo = Some UTC\<rparr>
       \<and> hour d = 0 \<and> minute d = 0 \<and> second d = 0 \<and> tzinfo d = Some UTC"
proof -
  let ?n = "\<bar>h ident\<bar> mod 730"
  have "in_window ?n" by (rule in_window) simp_all
  then show ?thesis
    by (simp add: stable_fallback_date_def datetime_new_epoch in_window_def split: sum.splits)
qed

lemma fallback_tz: "stable_fallback_date h ident = Inr d \<Longrightarrow> tzinfo d = Some UTC"
  using fallback_window [of h ident] by auto

lemma fallback_ordinal:
  "stable_fallback_date h ident = Inr d \<Longrightarrow> toordinal d = toordinal epoch + \<bar>h ident\<bar> mod 730"
  using fallback_window [of h ident] by auto

lemma fallback_never_raises: "stable_fallback_date h ident \<noteq> Inl e"
  using fallback_window [of h ident] by auto


subsection \<open>The title and date of one anchor text\<close>

lemma search_new_model_release:
  "re_search_date ''New Model ReleaseEngineeringJan 5, 2024'' = Some (28, ''Jan 5, 2024'')"
  by code_simp

lemma strptime_jan_5_2024:
  "strptime ''Jan 5, 2024''
   = Inr \<lparr>year = 2024, month = 1, day = 5, hour = 0, minute = 0, second = 0, tzinfo = None\<rparr>"
  by code_simp

lemma sub_new_model_release:
  "re_sub_engineering ''New Model ReleaseEngineeringJan 5, 2024'' = ''New Model Release''"
  by code_simp

lemma strip_new_model_release: "strip ''New Model Release'' = ''New Model Release''"
  by code_simp

text \<open>
  Claim C1. An anchor with the text "New Model ReleaseEngineeringJan 5, 2024" and an
  href that contains "/index/" gives exactly one article: its date is 2024-01-05 at
  midnight UTC, its title is "New Model Release", its link is the resolved href. On
  the way, the date pattern matches "Jan 5, 2024" at index 28, strptime reads it as
  2024-01-05, and the substitution cuts the text at "EngineeringJan".
\<close>

theorem parse_new_model_release:
  "str_contains ''/index/'' hrf \<Longrightarrow>
   re_search_date ''New Model ReleaseEngineeringJan 5, 2024'' = Some (28, ''Jan 5, 2024'')
   \<and> strip (re_sub_engineering ''New Model ReleaseEngineeringJan 5, 2024'') = ''New Model Release''
   \<and> parse_engineering_html h
         [\<lparr>href = hrf, get_text = Inr ''New Model ReleaseEngineeringJan 5, 2024''\<rparr>]
       = ([\<lparr>title = ''New Model Release'',
            link = (if startswith hrf ''/'' then ''https://openai.com'' @ hrf else hrf),
            date = \<lparr>year = 2024, month = 1, day = 5, hour = 0, minute = 0, second = 0,
                    tzinfo = Some UTC\<rparr>,
            category = ''Engineering'',
            description = ''New Model Release''\<rparr>],
          [(INFO, Found_article ''New Model Release''
                    \<lparr>year = 2024, month = 1, day = 5, hour = 0, minute = 0, second = 0,
                     tzinfo = Some UTC\<rparr>),
           (INFO, Parsed 1)])"
  by (simp add: parse_engineering_html_def loop_step_def process_anchor_def title_and_date_def
      search_new_model_release strptime_jan_5_2024 sub_new_model_release
      strip_new_model_release
      del: re_search_date.simps re_sub_engineering.simps)

theorem parse_new_model_release_witness:
  "str_contains ''/index/'' ''/index/new-model-release''
   \<and> fst (parse_engineering_html (\<lambda>s. 0)
         [\<lparr>href = ''/index/new-model-release'',
           get_text = Inr ''New Model ReleaseEngineeringJan 5, 2024''\<rparr>])
       = [\<lparr>title = ''New Model Release'',
           link = ''https://openai.com/index/new-model-release'',
           date = \<lparr>year = 2024, month = 1, day = 5, hour = 0, minute = 0, second = 0,
                   tzinfo = Some UTC\<rparr>,
           category = ''Engineering'',
           description = ''New Model Release''\<rparr>]"
proof -
  have marker: "str_contains ''/index/'' ''/index/new-model-release''" by simp
  from parse_new_model_release [OF marker, of "\<lambda>s. 0"] marker show ?thesis
    by (simp add: startswith_def del: re_search_date.simps re_sub_engineering.simps)
qed

subsection \<open>The loop of the parser\<close>

lemma candidates_Nil: "candidates h [] = []"
  by (simp add: candidates_def map_filter_simps)

lemma candidates_Cons:
  "candidates h (a # as) =
     (case process_anchor h a of
        Candidate art \<Rightarrow> art # candidates h as
      | Continue \<Rightarrow> candidates h as
      | Raised e \<Rightarrow> candidates h as)"
  by (simp add: candidates_def candidate_def map_filter_simps split: outcome.splits)

lemma set_candidates:
  "set (candidates h as) = {art. \<exists>a \<in> set as. process_anchor h a = Candidate art}"
  by (induction as) (auto simp: candidates_Nil candidates_Cons split: outcome.splits)

lemma fst_loop_step:
  "fst (loop_step h st a) =
     (case process_anchor h a of
        Candidate art \<Rightarrow> if link art \<in> link ` set (fst st) then fst st else fst st @ [art]
      | Continue \<Rightarrow> fst st
      | Raised e \<Rightarrow> fst st)"
  by (force simp: loop_step_def list_ex_iff image_iff split: outcome.splits)

lemma fst_parse: "fst (parse_engineering_html h as) = fst (parse_loop h as ([], []))"
  by (simp add: parse_engineering_html_def split: prod.splits)

lemma parse_loop_distinct:
  "distinct (map link (fst st)) \<Longrightarrow> distinct (map link (fst (parse_loop h as st)))"
proof (induction as arbitrary: st)
  case Nil
  then show ?case by simp
next
  case (Cons a as)
  have "distinct (map link (fst (loop_step h st a)))"
    using Cons.prems by (auto simp: fst_loop_step split: outcome.splits)
  then show ?case using Cons.IH by simp
qed

lemma parse_loop_first:
  "art \<in> set (fst (parse_loop h as st)) \<Longrightarrow>
   art \<in> set (fst st) \<or>
   (link art \<notin> link ` set (fst st)
    \<and> find (\<lambda>c. link c = link art) (candidates h as) = Some art)"
proof (induction as arbitrary: st)
  case Nil
  then show ?case by simp
next
  case (Cons a as)
  from Cons.prems have "art \<in> set (fst (parse_loop h as (loop_step h st a)))" by simp
  from Cons.IH [OF this] show ?case
    by (cases "process_anchor h a") (auto simp: fst_loop_step candidates_Cons split: if_splits)
qed

lemma parse_loop_links:
  "link ` set (fst (parse_loop h as st)) = link ` set (fst st) \<union> link ` set (candidates h as)"
proof (induction as arbitrary: st)
  case Nil
  then show ?case by (simp add: candidates_Nil)
next
  case (Cons a as)
  show ?case
    by (cases "process_anchor h a") (auto simp: Cons.IH fst_loop_step candidates_Cons)
qed

lemma parse_loop_subseq:
  "\<exists>ys. fst (parse_loop h as st) = fst st @ ys \<and> subseq ys (candidates h as)"
proof (induction as arbitrary: st)
  case Nil
  then show ?case by (simp add: candidates_Nil)
next
  case (Cons a as)
  obtain ys where ys: "fst (parse_loop h as (loop_step h st a)) = fst (loop_step h st a) @ ys"
    "subseq ys (candidates h as)" using Cons.IH by blast
  show ?case
  proof (cases "process_anchor h a")
    case (Candidate c)
    then show ?thesis using ys
      by (auto simp: fst_loop_step candidates_Cons intro: subseq_Cons')
  qed (use ys in \<open>auto simp: fst_loop_step candidates_Cons\<close>)
qed

text \<open>
  Claim C3. For every list of anchors, the links of the returned articles are pairwise
  distinct. Each returned article is the first of the articles the anchors yield (in
  document order, links resolved) that has its link, so a later anchor that resolves to
  the same link adds nothing. Every link some anchor yields is in the result, and the
  result keeps the document order.
\<close>

theorem links_unique_first_wins:
  "distinct (map link (fst (parse_engineering_html h anchors)))
   \<and> (\<forall>art \<in> set (fst (parse_engineering_html h anchors)).
        find (\<lambda>c. link c = link art) (candidates h anchors) = Some art)
   \<and> link ` set (fst (parse_engineering_html h anchors)) = link ` set (candidates h anchors)
   \<and> subseq (fst (parse_engineering_html h anchors)) (candidates h anchors)"
proof -
  have 1: "distinct (map link (fst (parse_engineering_html h anchors)))"
    unfolding fst_parse by (rule parse_loop_distinct) simp
  have 2: "\<forall>art \<in> set (fst (parse_engineering_html h anchors)).
        find (\<lambda>c. link c = link art) (candidates h anchors) = Some art"
    unfolding fst_parse using parse_loop_first [of _ h anchors "([], [])"] by auto
  have 3: "link ` set (fst (parse_engineering_html h anchors)) = link ` set (candidates h anchors)"
    unfolding fst_parse by (simp add: parse_loop_links)
  have 4: "subseq (fst (parse_engineering_html h anchors)) (candidates h anchors)"
    unfolding fst_parse using parse_loop_subseq [of h anchors "([], [])"] by auto
  from 1 2 3 4 show ?thesis by blast
qed

lemma str_contains_nonempty: "str_contains ''/index/'' s \<Longrightarrow> s \<noteq> []"
  by auto

lemma title_and_date_tz:
  "title_and_date h hrf txt = Inr (ttl, d) \<Longrightarrow> tzinfo d = Some UTC"
  by (auto simp: title_and_date_def Let_def dest: fallback_tz split: option.splits sum.splits prod.splits)

lemma candidate_qualifies:
  "process_anchor h a = Candidate art \<Longrightarrow> qualifies a"
  by (auto simp: process_anchor_def qualifies_def split: sum.splits if_splits)

lemma candidate_fields:
  "process_anchor h a = Candidate art \<Longrightarrow>
   link art = (if startswith (href a) ''/'' then ''https://openai.com'' @ href a else href a)
   \<and> link art \<noteq> [] \<and> tzinfo (date art) = Some UTC \<and> category art = ''Engineering''
   \<and> description art = title art"
  by (auto simp: process_anchor_def dest: title_and_date_tz str_contains_nonempty split: sum.splits if_splits prod.splits)

lemma parse_from_candidates:
  "set (fst (parse_engineering_html h as)) \<subseteq> set (candidates h as)"
  using parse_loop_subseq[of h as "([], [])"] by (auto simp: fst_parse dest: list_emb_set) 

lemma parse_loop_fst_cong:
  "fst st = fst st' \<Longrightarrow> fst (parse_loop h as st) = fst (parse_loop h as st')"
proof (induction as arbitrary: st st')
  case Nil
  then show ?case by simp
next
  case (Cons a as)
  have "fst (loop_step h st a) = fst (loop_step h st' a)"
    by (simp only: fst_loop_step Cons.prems)
  from Cons.IH [OF this] show ?case by simp
qed

lemma not_qualifies_step: "\<not> qualifies a \<Longrightarrow> fst (loop_step h st a) = fst st"
  using candidate_qualifies[of h a] by (cases "process_anchor h a") (auto simp: fst_loop_step)

lemma parse_loop_filter:
  "fst (parse_loop h (filter qualifies as) st) = fst (parse_loop h as st)"
proof (induction as arbitrary: st)
  case Nil
  then show ?case by simp
next
  case (Cons a as)
  show ?case
  proof (cases "qualifies a")
    case True
    then show ?thesis by (simp add: Cons.IH)
  next
    case False
    then have "fst (parse_loop h as (loop_step h st a)) = fst (parse_loop h as st)"
      by (intro parse_loop_fst_cong not_qualifies_step)
    with False show ?thesis by (simp add: Cons.IH)
  qed
qed

text \<open>
  Claim C4. Every returned article was built from an anchor of the page whose text
  could be read, whose href contains "/index/" and whose text has at least 20
  characters. Removing all other anchors from the page does not change the returned
  articles.
\<close>

theorem articles_from_qualifying_anchors:
  "(\<forall>art \<in> set (fst (parse_engineering_html h anchors)).
      \<exists>a \<in> set anchors. \<exists>txt. process_anchor h a = Candidate art \<and> get_text a = Inr txt
           \<and> str_contains ''/index/'' (href a) \<and> 20 \<le> length txt)
   \<and> fst (parse_engineering_html h (filter qualifies anchors)) = fst (parse_engineering_html h anchors)"
proof -
  have "\<exists>a \<in> set anchors. \<exists>txt. process_anchor h a = Candidate art \<and> get_text a = Inr txt
           \<and> str_contains ''/index/'' (href a) \<and> 20 \<le> length txt"
    if "art \<in> set (fst (parse_engineering_html h anchors))" for art
  proof -
    from that parse_from_candidates[of h anchors] obtain a
      where a: "a \<in> set anchors" "process_anchor h a = Candidate art"
      by (auto simp: set_candidates)
    from candidate_qualifies[OF a(2)] obtain t
      where "get_text a = Inr t" "str_contains ''/index/'' (href a)" "20 \<le> length t"
      by (auto simp: qualifies_def split: sum.splits)
    with a show ?thesis by blast
  qed
  then show ?thesis by (simp add: fst_parse parse_loop_filter)
qed

lemma parse_loop_append:
  "parse_loop h (xs @ ys) st = parse_loop h ys (parse_loop h xs st)"
  by (induction xs arbitrary: st) simp_all

lemma parse_loop_log: "set (snd st) \<subseteq> set (snd (parse_loop h as st))"
proof (induction as arbitrary: st)
  case Nil
  then show ?case by simp
next
  case (Cons a as)
  have "set (snd st) \<subseteq> set (snd (loop_step h st a))"
    by (auto simp: loop_step_def split: outcome.splits)
  with Cons.IH[of "loop_step h st a"] show ?case by auto
qed

lemma snd_parse: "set (snd (parse_loop h as ([], []))) \<subseteq> set (snd (parse_engineering_html h as))"
  by (auto simp: parse_engineering_html_def split: prod.splits)

text \<open>
  Claim C9. When the processing of an anchor raises an exception, the loop logs a
  warning with that exception and goes on with unchanged articles: the articles the
  parser returns for the whole page are those it returns for the page without that
  anchor, and the warning is in its log. The parser itself always returns.
\<close>

theorem raising_anchor_skipped:
  "process_anchor h a = Raised e \<Longrightarrow>
   loop_step h st a = (fst st, snd st @ [(WARNING, Skipping e)])
   \<and> fst (parse_engineering_html h (before @ a # after)) = fst (parse_engineering_html h (before @ after))
   \<and> (WARNING, Skipping e) \<in> set (snd (parse_engineering_html h (before @ a # after)))"
proof -
  assume r: "process_anchor h a = Raised e"
  then have step: "loop_step h st a = (fst st, snd st @ [(WARNING, Skipping e)])" for st
    by (simp add: loop_step_def)
  have "fst (parse_loop h (a # after) st) = fst (parse_loop h after st)" for st
  proof -
    have "fst (parse_loop h after (loop_step h st a)) = fst (parse_loop h after st)"
      by (rule parse_loop_fst_cong) (simp add: step)
    then show ?thesis by simp
  qed
  then have arts: "fst (parse_engineering_html h (before @ a # after)) = fst (parse_engineering_html h (before @ after))"
    by (simp add: fst_parse parse_loop_append)
  let ?st = "parse_loop h before ([], [])"
  have "(WARNING, Skipping e) \<in> set (snd (loop_step h ?st a))" by (simp add: step)
  then have "(WARNING, Skipping e) \<in> set (snd (parse_loop h after (loop_step h ?st a)))"
    using parse_loop_log by blast
  then have "(WARNING, Skipping e) \<in> set (snd (parse_loop h (before @ a # after) ([], [])))"
    by (simp add: parse_loop_append)
  then have lg: "(WARNING, Skipping e) \<in> set (snd (parse_engineering_html h (before @ a # after)))"
    using snd_parse by blast
  from step arts lg show ?thesis by blast
qed

lemma no_qualifying_no_articles:
  "\<not> list_ex qualifies anchors \<Longrightarrow> fst (parse_engineering_html h anchors) = []"
proof -
  assume "\<not> list_ex qualifies anchors"
  then have "filter qualifies anchors = []" by (auto simp: list_ex_iff filter_empty_conv)
  then have "fst (parse_engineering_html h (filter qualifies anchors)) = []" by (simp add: fst_parse)
  then show ?thesis by (simp add: fst_parse parse_loop_filter)
qed

subsection \<open>The example page\<close>

lemma example_parse: "fst (parse_engineering_html length_hash example_page) = [article_gpt_x]"
  by code_simp

lemma example_candidates: "map link (candidates length_hash example_page) = [''https://openai.com/index/gpt-x'', ''https://openai.com/index/gpt-x'']"
  by code_simp

lemma example_candidates_titles: "map title (candidates length_hash example_page) = [''Introducing GPT-X'', ''Read more about GPT-X today'']"
  by code_simp

theorem links_unique_first_wins_witness:
  "fst (parse_engineering_html length_hash example_page) = [article_gpt_x]
   \<and> map title (candidates length_hash example_page)
       = [''Introducing GPT-X'', ''Read more about GPT-X today'']
   \<and> map link (candidates length_hash example_page)
       = [''https://openai.com/index/gpt-x'', ''https://openai.com/index/gpt-x'']
   \<and> find (\<lambda>c. link c = link article_gpt_x) (candidates length_hash example_page)
       = Some article_gpt_x"
proof -
  note first = links_unique_first_wins [of length_hash example_page, THEN conjunct2, THEN conjunct1]
  have "article_gpt_x \<in> set (fst (parse_engineering_html length_hash example_page))"
    by (simp add: example_parse)
  with first have "find (\<lambda>c. link c = link article_gpt_x) (candidates length_hash example_page)
       = Some article_gpt_x" by (rule bspec)
  with example_parse example_candidates_titles example_candidates show ?thesis by (intro conjI)
qed

theorem articles_from_qualifying_anchors_witness:
  "fst (parse_engineering_html length_hash example_page) = [article_gpt_x]
   \<and> (\<exists>a \<in> set example_page. \<exists>t. process_anchor length_hash a = Candidate article_gpt_x
          \<and> get_text a = Inr t \<and> str_contains ''/index/'' (href a) \<and> 20 \<le> length t)
   \<and> filter qualifies example_page = [anchor_article, anchor_again]"
proof -
  note prov = articles_from_qualifying_anchors [of length_hash example_page, THEN conjunct1]
  have "article_gpt_x \<in> set (fst (parse_engineering_html length_hash example_page))"
    by (simp add: example_parse)
  with prov have "\<exists>a \<in> set example_page. \<exists>t. process_anchor length_hash a = Candidate article_gpt_x
          \<and> get_text a = Inr t \<and> str_contains ''/index/'' (href a) \<and> 20 \<le> length t"
    by (rule bspec)
  moreover have "filter qualifies example_page = [anchor_article, anchor_again]"
    by code_simp
  ultimately show ?thesis using example_parse by (intro conjI)
qed

lemma broken_raises: "process_anchor length_hash anchor_broken = Raised (Exception ''boom'')"
  by (simp add: process_anchor_def anchor_broken_def)

theorem raising_anchor_skipped_witness:
  "process_anchor length_hash anchor_broken = Raised (Exception ''boom'')
   \<and> fst (parse_engineering_html length_hash ([anchor_article] @ anchor_broken # [anchor_again]))
       = fst (parse_engineering_html length_hash ([anchor_article] @ [anchor_again]))
   \<and> (WARNING, Skipping (Exception ''boom''))
       \<in> set (snd (parse_engineering_html length_hash ([anchor_article] @ anchor_broken # [anchor_again])))"
proof -
  note skip = raising_anchor_skipped [OF broken_raises, of "([], [])" "[anchor_article]" "[anchor_again]"]
  from skip have 1: "fst (parse_engineering_html length_hash ([anchor_article] @ anchor_broken # [anchor_again]))
       = fst (parse_engineering_html length_hash ([anchor_article] @ [anchor_again]))"
    by (rule conjunct1 [OF conjunct2])
  from skip have 2: "(WARNING, Skipping (Exception ''boom''))
       \<in> set (snd (parse_engineering_html length_hash ([anchor_article] @ anchor_broken # [anchor_again])))"
    by (rule conjunct2 [OF conjunct2])
  from broken_raises 1 2 show ?thesis by (intro conjI)
qed

subsection \<open>Links and dates of the returned articles\<close>

text \<open>
  Claim C5. Every article the parser returns has a non-empty link and a date that
  carries the time zone UTC, whether the date was read from the text or came from the
  fallback.
\<close>

theorem articles_link_and_utc_date:
  "\<forall>art \<in> set (fst (parse_engineering_html h anchors)).
      link art \<noteq> [] \<and> tzinfo (date art) = Some UTC"
  using parse_from_candidates[of h anchors] by (auto simp: set_candidates dest: candidate_fields)

theorem articles_link_and_utc_date_witness:
  "fst (parse_engineering_html length_hash example_page) = [article_gpt_x]
   \<and> link article_gpt_x \<noteq> [] \<and> tzinfo (date article_gpt_x) = Some UTC"
proof -
  have "article_gpt_x \<in> set (fst (parse_engineering_html length_hash example_page))"
    by (simp add: example_parse)
  with articles_link_and_utc_date [of length_hash example_page]
  have "link article_gpt_x \<noteq> [] \<and> tzinfo (date article_gpt_x) = Some UTC" by (rule bspec)
  with example_parse show ?thesis by (intro conjI) auto
qed

subsection \<open>main on a page without articles\<close>

text \<open>
  Claim C8. A page on which no anchor passes the filter gives no articles. When the
  page is fetched and the parser returns no articles, \<open>main\<close> returns False, its last
  log line is the warning that no articles were parsed, no feed object is generated and
  no file is written.
\<close>

theorem main_no_articles:
  "(\<not> list_ex qualifies anchors \<longrightarrow> fst (parse_engineering_html h anchors) = [])
   \<and> (http_get w = Inr page \<and> fst (parse_engineering_html (py_hash w) (find_all_a w page)) = []
      \<longrightarrow> returned (main w) = False \<and> generated (main w) = None \<and> written (main w) = []
          \<and> logged (main w) = [(INFO, Fetching), (INFO, Fetched)] @ snd (parse_engineering_html (py_hash w) (find_all_a w page)) @ [(WARNING, No_articles)])"
proof (rule conjI; rule impI)
  assume "\<not> list_ex qualifies anchors"
  then show "fst (parse_engineering_html h anchors) = []" by (rule no_qualifying_no_articles)
next
  assume a: "http_get w = Inr page \<and> fst (parse_engineering_html (py_hash w) (find_all_a w page)) = []"
  obtain arts lg where p: "parse_engineering_html (py_hash w) (find_all_a w page) = (arts, lg)"
    by (cases "parse_engineering_html (py_hash w) (find_all_a w page)")
  with a have e: "arts = []" by simp
  from a have f: "fetch_engineering_page w = (Inr page, [(INFO, Fetching), (INFO, Fetched)])"
    by (simp add: fetch_engineering_page_def)
  have m: "main w = \<lparr>returned = False, logged = [(INFO, Fetching), (INFO, Fetched)] @ lg @ [(WARNING, No_articles)],
                     generated = None, written = []\<rparr>"
    by (simp add: main_def f p e)
  show "returned (main w) = False \<and> generated (main w) = None \<and> written (main w) = []
          \<and> logged (main w) = [(INFO, Fetching), (INFO, Fetched)] @ snd (parse_engineering_html (py_hash w) (find_all_a w page)) @ [(WARNING, No_articles)]"
    by (simp add: m p)
qed

theorem main_no_articles_witness:
  "\<not> list_ex qualifies (find_all_a world_no_articles ''<html>'')
   \<and> http_get world_no_articles = Inr ''<html>''
   \<and> returned (main world_no_articles) = False
   \<and> generated (main world_no_articles) = None
   \<and> written (main world_no_articles) = []"
proof -
  have none: "\<not> list_ex qualifies (find_all_a world_no_articles ''<html>'')"
    by (simp add: world_no_articles_def qualifies_def anchor_about_def anchor_short_def)
  have page: "http_get world_no_articles = Inr ''<html>''"
    by (simp add: world_no_articles_def)
  note claim = main_no_articles [of "find_all_a world_no_articles ''<html>''"
      "py_hash world_no_articles" world_no_articles "''<html>''"]
  from claim [THEN conjunct1] none
  have "fst (parse_engineering_html (py_hash world_no_articles)
               (find_all_a world_no_articles ''<html>'')) = []" by (rule mp)
  with page have "http_get world_no_articles = Inr ''<html>''
      \<and> fst (parse_engineering_html (py_hash world_no_articles)
               (find_all_a world_no_articles ''<html>'')) = []" by (rule conjI)
  with claim [THEN conjunct2]
  have "returned (main world_no_articles) = False \<and> generated (main world_no_articles) = None
      \<and> written (main world_no_articles) = []
      \<and> logged (main world_no_articles)
          = [(INFO, Fetching), (INFO, Fetched)]
            @ snd (parse_engineering_html (py_hash world_no_articles)
                     (find_all_a world_no_articles ''<html>''))
            @ [(WARNING, No_articles)]" by (rule mp)
  with none page show ?thesis by simp
qed

subsection \<open>The identifier of the fallback date\<close>

lemma title_and_date_fallback:
  "title_and_date h hrf t = Inr (ttl, d) \<Longrightarrow>
   (case re_search_date t of None \<Rightarrow> True | Some (i, ds) \<Rightarrow> isl (strptime ds)) \<Longrightarrow>
   stable_fallback_date h hrf = Inr d"
  by (auto simp: title_and_date_def Let_def split: option.splits sum.splits prod.splits)

lemma candidate_title_date:
  "process_anchor h a = Candidate art \<Longrightarrow> get_text a = Inr t \<Longrightarrow>
   title_and_date h (href a) t = Inr (title art, date art)"
  by (auto simp: process_anchor_def split: sum.splits if_splits prod.splits)

lemma candidate_fallback:
  "process_anchor h a = Candidate art \<Longrightarrow> get_text a = Inr t \<Longrightarrow>
   (case re_search_date t of None \<Rightarrow> True | Some (i, ds) \<Rightarrow> isl (strptime ds)) \<Longrightarrow>
   stable_fallback_date h (href a) = Inr (date art)"
  by (rule title_and_date_fallback [OF candidate_title_date])

lemma fallback_same_residue:
  "\<bar>h x\<bar> mod 730 = \<bar>h y\<bar> mod 730 \<Longrightarrow> stable_fallback_date h x = stable_fallback_date h y"
  by (simp add: stable_fallback_date_def)

lemma fallback_dates_equal_iff:
  assumes "stable_fallback_date h x = Inr d1" "stable_fallback_date h y = Inr d2"
  shows "d1 = d2 \<longleftrightarrow> \<bar>h x\<bar> mod 730 = \<bar>h y\<bar> mod 730"
proof
  assume "d1 = d2"
  with fallback_ordinal[OF assms(1)] fallback_ordinal[OF assms(2)]
  show "\<bar>h x\<bar> mod 730 = \<bar>h y\<bar> mod 730" by simp
next
  assume "\<bar>h x\<bar> mod 730 = \<bar>h y\<bar> mod 730"
  from fallback_same_residue[OF this] assms show "d1 = d2" by simp
qed

text \<open>
  Claim C10. Whenever the date of an article is the fallback date (the text has no date,
  or strptime refused the date found), it is \<open>stable_fallback_date\<close> of the anchor's raw
  href. So for a relative href \<open>p\<close> and the absolute href "https://openai.com" followed
  by \<open>p\<close>, on anchors without a date in their text, the resolved links are equal, while
  the two dates are equal exactly when the hashes of the two spellings agree modulo 730
  in absolute value: they differ for every pair whose hash residues differ.
\<close>

theorem fallback_date_from_raw_href:
  "(process_anchor h a = Candidate art \<and> get_text a = Inr t
      \<and> (case re_search_date t of None \<Rightarrow> True | Some (i, ds) \<Rightarrow> isl (strptime ds))
    \<longrightarrow> stable_fallback_date h (href a) = Inr (date art))
   \<and> (startswith p ''/''
      \<and> process_anchor h \<lparr>href = p, get_text = Inr t1\<rparr> = Candidate art1
      \<and> process_anchor h \<lparr>href = ''https://openai.com'' @ p, get_text = Inr t2\<rparr> = Candidate art2
      \<and> re_search_date t1 = None \<and> re_search_date t2 = None
    \<longrightarrow> link art1 = link art2
        \<and> stable_fallback_date h p = Inr (date art1)
        \<and> stable_fallback_date h (''https://openai.com'' @ p) = Inr (date art2)
        \<and> (date art1 = date art2 \<longleftrightarrow> \<bar>h p\<bar> mod 730 = \<bar>h (''https://openai.com'' @ p)\<bar> mod 730))"
proof (rule conjI; rule impI)
  assume "process_anchor h a = Candidate art \<and> get_text a = Inr t
      \<and> (case re_search_date t of None \<Rightarrow> True | Some (i, ds) \<Rightarrow> isl (strptime ds))"
  then show "stable_fallback_date h (href a) = Inr (date art)"
    using candidate_fallback by blast
next
  let ?q = "''https://openai.com'' @ p"
  assume a: "startswith p ''/''
      \<and> process_anchor h \<lparr>href = p, get_text = Inr t1\<rparr> = Candidate art1
      \<and> process_anchor h \<lparr>href = ?q, get_text = Inr t2\<rparr> = Candidate art2
      \<and> re_search_date t1 = None \<and> re_search_date t2 = None"
  then have l1: "link art1 = ?q"
    using candidate_fields[of h "\<lparr>href = p, get_text = Inr t1\<rparr>" art1] by simp
  have "\<not> startswith ?q ''/''" by (simp add: startswith_def)
  with a have l2: "link art2 = ?q"
    using candidate_fields[of h "\<lparr>href = ?q, get_text = Inr t2\<rparr>" art2] by simp
  from a have d1: "stable_fallback_date h p = Inr (date art1)"
    using candidate_fallback[of h "\<lparr>href = p, get_text = Inr t1\<rparr>" art1 t1] by simp
  from a have d2: "stable_fallback_date h ?q = Inr (date art2)"
    using candidate_fallback[of h "\<lparr>href = ?q, get_text = Inr t2\<rparr>" art2 t2] by simp
  from l1 l2 d1 d2 fallback_dates_equal_iff[OF d1 d2]
  show "link art1 = link art2
        \<and> stable_fallback_date h p = Inr (date art1)
        \<and> stable_fallback_date h ?q = Inr (date art2)
        \<and> (date art1 = date art2 \<longleftrightarrow> \<bar>h p\<bar> mod 730 = \<bar>h ?q\<bar> mod 730)"
    by simp
qed

theorem fallback_date_from_raw_href_witness:
  "startswith ''/index/x'' ''/''
   \<and> process_anchor length_hash anchor_relative = Candidate article_relative
   \<and> process_anchor length_hash anchor_absolute = Candidate article_absolute
   \<and> link article_relative = link article_absolute
   \<and> date article_relative \<noteq> date article_absolute"
proof -
  have rel: "process_anchor length_hash \<lparr>href = ''/index/x'',
                get_text = Inr ''A look inside our training stack''\<rparr> = Candidate article_relative"
    by code_simp
  have abs: "process_anchor length_hash \<lparr>href = ''https://openai.com'' @ ''/index/x'',
                get_text = Inr ''A look inside our training stack''\<rparr> = Candidate article_absolute"
    by code_simp
  have nodate: "re_search_date ''A look inside our training stack'' = None"
    by code_simp
  have start: "startswith ''/index/x'' ''/''"
    by (simp add: startswith_def)
  from start rel abs nodate
  have hyps: "startswith ''/index/x'' ''/''
      \<and> process_anchor length_hash \<lparr>href = ''/index/x'',
            get_text = Inr ''A look inside our training stack''\<rparr> = Candidate article_relative
      \<and> process_anchor length_hash \<lparr>href = ''https://openai.com'' @ ''/index/x'',
            get_text = Inr ''A look inside our training stack''\<rparr> = Candidate article_absolute
      \<and> re_search_date ''A look inside our training stack'' = None
      \<and> re_search_date ''A look inside our training stack'' = None"
    by (intro conjI)
  note claim = fallback_date_from_raw_href [THEN conjunct2, THEN mp, OF hyps]
  from claim have links: "link article_relative = link article_absolute"
    by (rule conjunct1)
  from claim have "(date article_relative = date article_absolute)
      \<longleftrightarrow> \<bar>length_hash ''/index/x''\<bar> mod 730
          = \<bar>length_hash (''https://openai.com'' @ ''/index/x'')\<bar> mod 730"
    by (rule conjunct2 [OF conjunct2 [OF conjunct2]])
  then have dates: "date article_relative \<noteq> date article_absolute"
    by (simp add: length_hash_def)
  from rel abs have "process_anchor length_hash anchor_relative = Candidate article_relative"
    and "process_anchor length_hash anchor_absolute = Candidate article_absolute"
    by (simp_all add: anchor_relative_def anchor_absolute_def)
  with start links dates show ?thesis by (intro conjI)
qed

subsection \<open>The order of the feed\<close>

lemma add_entries_aware:
  "list_all aware xs \<Longrightarrow>
   add_entries fg xs
   = Inr (fg\<lparr>fg_entries :=
             rev (map (\<lambda>x. \<lparr>entry_title = title x, entry_link = link x,
                              entry_description = description x, entry_published = date x,
                              entry_category = category x, entry_id = link x\<rparr>) xs)
             @ fg_entries fg\<rparr>)"
  by (induction xs arbitrary: fg) (auto simp: aware_def add_entry_def)

lemma sorted_reverse_aware:
  "list_all aware xs \<Longrightarrow>
   sorted_reverse xs = Inr (rev (sort_key (\<lambda>x. dt_key (date x)) (rev xs)))"
  by (auto simp: sorted_reverse_def list_ex_iff list_all_iff)

lemma feed_entries_aware:
  assumes "list_all aware xs"
  shows "map entry_published (feed_entries xs)
         = map date (sort_key (\<lambda>x. dt_key (date x)) (rev xs))"
proof -
  let ?s = "rev (sort_key (\<lambda>x. dt_key (date x)) (rev xs))"
  have "list_all aware ?s" using assms by (simp add: list_all_iff)
  from add_entries_aware [OF this, of new_feed] sorted_reverse_aware [OF assms]
  show ?thesis
    by (simp add: feed_entries_def generate_rss_feed_def new_feed_def rev_map o_def)
qed

lemma feed_entries_ascending:
  "list_all aware xs \<Longrightarrow> sorted (map (\<lambda>e. dt_key (entry_published e)) (feed_entries xs))"
proof -
  assume a: "list_all aware xs"
  have "map (\<lambda>e. dt_key (entry_published e)) (feed_entries xs)
        = map dt_key (map entry_published (feed_entries xs))" by (simp add: o_def)
  also have "\<dots> = map (\<lambda>x. dt_key (date x)) (sort_key (\<lambda>x. dt_key (date x)) (rev xs))"
    by (simp add: feed_entries_aware [OF a] o_def)
  finally show ?thesis by simp
qed

lemma sorted_three:
  "sorted_reverse three_articles
   = Inr [article_dated ''march'' 2024 3 1, article_dated ''february'' 2024 2 1,
          article_dated ''january'' 2024 1 1]"
  by code_simp

text \<open>
  Claim C7. The claim is that the entries of the generated feed are ordered newest
  first, and that articles dated 2024-01-01, 2024-03-01, 2024-02-01 appear as 03-01,
  02-01, 01-01. The script does sort newest first (its comment says so), but it then
  adds the entries one by one with \<open>fg.add_entry()\<close>, which puts each new entry in front
  of the earlier ones. On the three articles the sorted list is March, February,
  January, and the feed lists January, February, March: oldest first.
\<close>

theorem feed_lists_oldest_first:
  "sorted_reverse three_articles
   = Inr [article_dated ''march'' 2024 3 1, article_dated ''february'' 2024 2 1,
          article_dated ''january'' 2024 1 1]
   \<and> \<not> isl (fst (generate_rss_feed three_articles))
   \<and> map entry_title (feed_entries three_articles) = [''january'', ''february'', ''march'']
   \<and> map (\<lambda>e. dt_key (entry_published e)) (feed_entries three_articles)
       = [(2024, 1, 1, 0, 0, 0), (2024, 2, 1, 0, 0, 0), (2024, 3, 1, 0, 0, 0)]"
proof (intro conjI)
  show "sorted_reverse three_articles
   = Inr [article_dated ''march'' 2024 3 1, article_dated ''february'' 2024 2 1,
          article_dated ''january'' 2024 1 1]" by (rule sorted_three)
  show "\<not> isl (fst (generate_rss_feed three_articles))" by code_simp
  show "map entry_title (feed_entries three_articles) = [''january'', ''february'', ''march'']"
    by code_simp
  show "map (\<lambda>e. dt_key (entry_published e)) (feed_entries three_articles)
       = [(2024, 1, 1, 0, 0, 0), (2024, 2, 1, 0, 0, 0), (2024, 3, 1, 0, 0, 0)]"
    by code_simp
qed

subsection \<open>The title and the matched date\<close>





















end
